theory Spec2Isabelle
  imports Main "HOL-Library.Word" "HOL-Library.Sublist"
begin

section \<open>JavaScript strings\<close>

text \<open>
  A JavaScript string is a sequence of UTF-16 code units. The literals of the source are
  ASCII; \<open>js\<close> turns an Isabelle literal into the code units of the same text.
\<close>

type_synonym jschar = "16 word"
type_synonym jsstring = "jschar list"
type_synonym byte = "8 word"

definition js :: "string \<Rightarrow> jsstring" where
  "js s = map (\<lambda>c. of_nat (of_char c)) s"

definition hyphen :: jschar where
  "hyphen = 0x2D"

definition dot :: jschar where
  "dot = 0x2E"

definition isHyphen :: "jschar \<Rightarrow> bool" where
  "isHyphen c = (c = hyphen)"

text \<open>
  The class \<open>\s\<close> of a regular expression and the characters removed by \<open>trim()\<close> are
  the same set: the WhiteSpace and LineTerminator code points of ECMAScript (TAB, LF, VT,
  FF, CR, SP, NBSP, U+1680, U+2000 to U+200A, U+2028, U+2029, U+202F, U+205F, U+3000 and
  U+FEFF).
\<close>

definition isWhiteSpace :: "jschar \<Rightarrow> bool" where
  "isWhiteSpace c =
     (c = 0x09 \<or> c = 0x0A \<or> c = 0x0B \<or> c = 0x0C \<or> c = 0x0D \<or> c = 0x20 \<or> c = 0xA0
      \<or> c = 0x1680 \<or> (0x2000 \<le> c \<and> c \<le> 0x200A) \<or> c = 0x2028 \<or> c = 0x2029
      \<or> c = 0x202F \<or> c = 0x205F \<or> c = 0x3000 \<or> c = 0xFEFF)"

text \<open>The class \<open>[/\\:*?"<>|]\<close> of \<open>sanitizeSegment\<close>.\<close>

definition isForbidden :: "jschar \<Rightarrow> bool" where
  "isForbidden c =
     (c = 0x2F \<or> c = 0x5C \<or> c = 0x3A \<or> c = 0x2A \<or> c = 0x3F \<or> c = 0x22 \<or> c = 0x3C
      \<or> c = 0x3E \<or> c = 0x7C)"

text \<open>The class \<open>\d\<close> (no unicode flag): the ten ASCII digits.\<close>

definition isDigit :: "jschar \<Rightarrow> bool" where
  "isDigit c = (0x30 \<le> c \<and> c \<le> 0x39)"

definition trim :: "jsstring \<Rightarrow> jsstring" where
  "trim s = rev (dropWhile isWhiteSpace (rev (dropWhile isWhiteSpace s)))"

text \<open>
  \<open>s.replace(/C+/g, r)\<close> for a character class \<open>C\<close>: scanning from the left, a greedy
  match takes the whole run of class characters, and the scan goes on behind the match.
\<close>

function replaceAllPlus :: "(jschar \<Rightarrow> bool) \<Rightarrow> jsstring \<Rightarrow> jsstring \<Rightarrow> jsstring" where
  "replaceAllPlus P r [] = []"
| "replaceAllPlus P r (c # s) =
     (if P c then r @ replaceAllPlus P r (dropWhile P s) else c # replaceAllPlus P r s)"
  by pat_completeness auto
termination
  by (relation "measure (\<lambda>(P, r, s). length s)") (auto simp: length_dropWhile_le less_Suc_eq_le)

text \<open>\<open>s.replace(/C/g, r)\<close>: every character of the class on its own.\<close>

definition replaceAllClass :: "(jschar \<Rightarrow> bool) \<Rightarrow> jsstring \<Rightarrow> jsstring \<Rightarrow> jsstring" where
  "replaceAllClass P r s = concat (map (\<lambda>c. if P c then r else [c]) s)"

text \<open>
  \<open>s.replace(/^-+|-+$/g, '')\<close>: the first alternative can match at position 0 only and
  takes the leading run of hyphens; behind it, the second alternative matches at the
  first position from which only hyphens follow up to the end of the string.
\<close>

fun replaceTrailingHyphens :: "jsstring \<Rightarrow> jsstring" where
  "replaceTrailingHyphens [] = []"
| "replaceTrailingHyphens (c # s) =
     (if isHyphen c \<and> list_all isHyphen s then [] else c # replaceTrailingHyphens s)"

definition replaceAllEdgeHyphens :: "jsstring \<Rightarrow> jsstring" where
  "replaceAllEdgeHyphens s = replaceTrailingHyphens (dropWhile isHyphen s)"

text \<open>
  A number inside a template literal: the counters and lengths of the source are
  non-negative integers far below \<open>2^53\<close>, printed in decimal.
\<close>

definition digitChar :: "nat \<Rightarrow> jschar" where
  "digitChar d = of_nat (48 + d)"

fun decimal :: "nat \<Rightarrow> jsstring" where
  "decimal n = (if n < 10 then [digitChar n] else decimal (n div 10) @ [digitChar (n mod 10)])"

declare decimal.simps [simp del]

definition numberToString :: "int \<Rightarrow> jsstring" where
  "numberToString i = (if i < 0 then hyphen # decimal (nat (- i)) else decimal (nat i))"

text \<open>\<open>s.lastIndexOf(c)\<close>: the last position of \<open>c\<close>, or \<open>-1\<close>.\<close>

fun lastIndexOf :: "jsstring \<Rightarrow> jschar \<Rightarrow> int" where
  "lastIndexOf [] c = - 1"
| "lastIndexOf (x # s) c =
     (let r = lastIndexOf s c in if 0 \<le> r then r + 1 else if x = c then 0 else - 1)"

text \<open>\<open>s.substring(a, b)\<close> and \<open>s.substring(a)\<close>; a negative index counts as 0.\<close>

definition substring :: "jsstring \<Rightarrow> int \<Rightarrow> int \<Rightarrow> jsstring" where
  "substring s a b = drop (nat (min a b)) (take (nat (max a b)) s)"

definition substringFrom :: "jsstring \<Rightarrow> int \<Rightarrow> jsstring" where
  "substringFrom s a = drop (nat a) s"

text \<open>
  \<open>name.toLowerCase().endsWith('.pdf')\<close>. Lower-casing touches code units beyond ASCII
  too, but no code point other than the ASCII capitals lower-cases to one of the letters
  \<open>p\<close>, \<open>d\<close>, \<open>f\<close> or to the dot, so the test reads the last four code units with the
  ASCII capitals folded.
\<close>

definition lowerAscii :: "jschar \<Rightarrow> jschar" where
  "lowerAscii c = (if 0x41 \<le> c \<and> c \<le> 0x5A then c + 0x20 else c)"

definition lowerEndsWithPdf :: "jsstring \<Rightarrow> bool" where
  "lowerEndsWithPdf n = (4 \<le> length n \<and> map lowerAscii (drop (length n - 4) n) = js ''.pdf'')"

section \<open>Constants and utility functions\<close>

definition MAX_FILES :: nat where
  "MAX_FILES = 100"

text \<open>
  \<open>DATE_REGEX = /^\d{4}-\d{2}-\d{2}$/\<close>: the pattern is a sequence of pieces without
  alternatives, anchored at both ends; each piece consumes a part of the input or fails.
\<close>

fun matchDigits :: "nat \<Rightarrow> jsstring \<Rightarrow> jsstring option" where
  "matchDigits 0 s = Some s"
| "matchDigits (Suc n) [] = None"
| "matchDigits (Suc n) (c # s) = (if isDigit c then matchDigits n s else None)"

fun matchChar :: "jschar \<Rightarrow> jsstring \<Rightarrow> jsstring option" where
  "matchChar x [] = None"
| "matchChar x (c # s) = (if c = x then Some s else None)"

definition DATE_REGEX_test :: "jsstring \<Rightarrow> bool" where
  "DATE_REGEX_test s =
     (Option.bind (Option.bind (Option.bind (Option.bind
        (matchDigits 4 s) (matchChar hyphen)) (matchDigits 2)) (matchChar hyphen)) (matchDigits 2)
      = Some [])"

text \<open>
  The types of the source. \<open>File\<close> is the file object of the browser: its name, size,
  modification time and media type, and the bytes that \<open>arrayBuffer()\<close> resolves to.
\<close>

record File =
  name :: jsstring
  size_file :: nat
  lastModified :: int
  type_file :: jsstring
  arrayBuffer :: "byte list"

record FileData =
  file_obj :: File
  key :: jsstring
  isPdf :: bool
  url :: "jsstring option"

record PdfMetadata =
  distributor :: jsstring
  invoiceNumber :: jsstring
  date :: jsstring

datatype PdfStatus = Ready | Missing | Invalid

record StatusResult =
  status :: PdfStatus
  message :: "jsstring option"

definition getFileKey :: "File \<Rightarrow> jsstring" where
  "getFileKey f =
     name f @ js ''|'' @ decimal (size_file f) @ js ''|'' @ numberToString (lastModified f)"

definition sanitizeSegment :: "jsstring \<Rightarrow> jsstring" where
  "sanitizeSegment segment =
     replaceAllEdgeHyphens
       (replaceAllPlus isHyphen [hyphen]
         (replaceAllClass isForbidden [hyphen]
           (replaceAllPlus isWhiteSpace [hyphen] (trim segment))))"

definition validateSegment :: "jsstring \<Rightarrow> bool" where
  "validateSegment segment = (length (sanitizeSegment segment) > 0)"

section \<open>The state of the component and its handlers\<close>

text \<open>
  The state hooks that the handlers below read or write (\<open>numPages\<close> and
  \<open>containerWidth\<close> belong to the preview). A handler is a function from the state to
  the state after the event.
\<close>

record AppState =
  files :: "FileData list"
  selectedPdfKey :: "jsstring option"
  metadata :: "jsstring \<rightharpoonup> PdfMetadata"
  pageNumber :: nat
  isAskingPrefix :: bool
  prefixValue :: jsstring
  error :: jsstring

definition pdfFiles :: "AppState \<Rightarrow> FileData list" where
  "pdfFiles st = filter (\<lambda>f. isPdf f) (files st)"

definition otherFiles :: "AppState \<Rightarrow> FileData list" where
  "otherFiles st = filter (\<lambda>f. \<not> isPdf f) (files st)"

subsection \<open>handleFileSelect\<close>

definition isPdfFile :: "File \<Rightarrow> bool" where
  "isPdfFile f = (type_file f = js ''application/pdf'' \<or> lowerEndsWithPdf (name f))"

definition toFileData :: "File \<Rightarrow> FileData" where
  "toFileData f = \<lparr>file_obj = f, key = getFileKey f, isPdf = isPdfFile f, url = None\<rparr>"

definition limitMessage :: "nat \<Rightarrow> nat \<Rightarrow> jsstring" where
  "limitMessage added current =
     js ''Cannot add '' @ decimal added @ js '' files. Limit is '' @ decimal MAX_FILES
       @ js '' files total. Currently: '' @ decimal current"

text \<open>The argument is \<open>None\<close> for a \<open>null\<close> file list.\<close>

definition handleFileSelect :: "AppState \<Rightarrow> File list option \<Rightarrow> AppState" where
  "handleFileSelect st fileList =
     (case fileList of
        None \<Rightarrow> st
      | Some newFiles \<Rightarrow>
          if length newFiles = 0 then st
          else if length (files st) + length newFiles > MAX_FILES then
            st\<lparr>error := limitMessage (length newFiles) (length (files st))\<rparr>
          else st\<lparr>error := [], files := files st @ map toFileData newFiles\<rparr>)"

subsection \<open>getPdfStatus, allPdfsReady and handleExportClick\<close>

text \<open>
  \<open>metadata[key]\<close> for the key of a file: \<open>getFileKey\<close> puts the character \<open>|\<close> into
  every key, so a key is never the name of a property that a plain object inherits, and
  the lookup finds the record stored under the key or nothing.
\<close>

definition getPdfStatus :: "AppState \<Rightarrow> jsstring \<Rightarrow> bool \<Rightarrow> StatusResult" where
  "getPdfStatus st k includePrefix =
     (case metadata st k of
        None \<Rightarrow> \<lparr>status = Missing, message = Some (js ''No metadata'')\<rparr>
      | Some meta \<Rightarrow>
          if distributor meta = [] \<or> invoiceNumber meta = [] \<or> date meta = [] then
            \<lparr>status = Missing, message = Some (js ''Missing fields'')\<rparr>
          else if \<not> DATE_REGEX_test (date meta) then
            \<lparr>status = Invalid, message = Some (js ''Invalid date format (YYYY-MM-DD)'')\<rparr>
          else if \<not> validateSegment (distributor meta) then
            \<lparr>status = Invalid,
             message = Some (js ''Invalid distributor (empty after sanitization)'')\<rparr>
          else if \<not> validateSegment (invoiceNumber meta) then
            \<lparr>status = Invalid,
             message = Some (js ''Invalid invoice number (empty after sanitization)'')\<rparr>
          else if includePrefix \<and> prefixValue st \<noteq> [] \<and> \<not> validateSegment (prefixValue st) then
            \<lparr>status = Invalid, message = Some (js ''Invalid prefix'')\<rparr>
          else \<lparr>status = Ready, message = None\<rparr>)"

definition allPdfsReady :: "AppState \<Rightarrow> bool" where
  "allPdfsReady st = list_all (\<lambda>pdf. status (getPdfStatus st (key pdf) True) = Ready) (pdfFiles st)"

text \<open>
  The second component is the key of the list entry that the handler scrolls into view
  (through the timer it sets), if any.
\<close>

definition handleExportClick :: "AppState \<Rightarrow> AppState \<times> jsstring option" where
  "handleExportClick st =
     (if \<not> allPdfsReady st then
        (case find (\<lambda>pdf. status (getPdfStatus st (key pdf) False) \<noteq> Ready) (pdfFiles st) of
           Some firstBlocking \<Rightarrow>
             (st\<lparr>selectedPdfKey := Some (key firstBlocking), pageNumber := 1\<rparr>,
              Some (key firstBlocking))
         | None \<Rightarrow> (st, None))
      else (st\<lparr>isAskingPrefix := True, prefixValue := []\<rparr>, None))"

subsection \<open>The prefix dialog\<close>

text \<open>
  The values that the state hooks start with, and the two other writers of
  \<open>isAskingPrefix\<close> and \<open>prefixValue\<close> beside \<open>handleExportClick\<close> and
  \<open>handleConfirmExport\<close>: the handler of the Cancel button, and \<open>setPrefixValue\<close>, which
  the \<open>onChange\<close> of the prefix input calls with the text of the input. The export section
  renders the Export button, whose \<open>onClick\<close> is \<open>handleExportClick\<close>, when
  \<open>isAskingPrefix\<close> is false, and the prefix input with the Confirm and Cancel buttons when
  it is true.
\<close>

definition initialState :: AppState where
  "initialState =
     \<lparr>files = [], selectedPdfKey = None, metadata = Map.empty, pageNumber = 1,
      isAskingPrefix = False, prefixValue = [], error = []\<rparr>"

definition handleCancelExport :: "AppState \<Rightarrow> AppState" where
  "handleCancelExport st = st\<lparr>isAskingPrefix := False, prefixValue := []\<rparr>"

definition setPrefixValue :: "AppState \<Rightarrow> jsstring \<Rightarrow> AppState" where
  "setPrefixValue st v = st\<lparr>prefixValue := v\<rparr>"

subsection \<open>Numbered names\<close>

text \<open>
  Both collision loops of the export try the names made with the counters 2, 3, ... in
  turn. Two counters never give the same name, so a finite set of used names excludes
  only finitely many of them: this is why the loops end.
\<close>

lemma digitChar_inj: "a < 10 \<Longrightarrow> b < 10 \<Longrightarrow> digitChar a = digitChar b \<Longrightarrow> a = b"
  by (simp add: digitChar_def word_of_nat_eq_iff take_bit_nat_eq_self)

lemma decimal_not_Nil: "decimal n \<noteq> []"
  by (subst decimal.simps) simp

lemma length_decimal_ge10: "10 \<le> n \<Longrightarrow> 2 \<le> length (decimal n)"
  using decimal_not_Nil[of "n div 10"]
  by (subst decimal.simps) (cases "decimal (n div 10)"; simp)

lemma decimal_inj: "decimal n = decimal m \<Longrightarrow> n = m"
proof (induction n arbitrary: m rule: decimal.induct)
  case (1 n)
  show ?case
  proof (cases "n < 10")
    case True
    show ?thesis
    proof (cases "m < 10")
      case m: True
      with True "1.prems" show ?thesis
        by (simp add: decimal.simps[of n] decimal.simps[of m] digitChar_inj)
    next
      case False
      then have "2 \<le> length (decimal m)" by (simp add: length_decimal_ge10)
      moreover from True have "length (decimal n) = 1" by (simp add: decimal.simps[of n])
      ultimately show ?thesis using "1.prems" by simp
    qed
  next
    case False
    show ?thesis
    proof (cases "m < 10")
      case True
      then have "length (decimal m) = 1" by (simp add: decimal.simps[of m])
      moreover from False have "2 \<le> length (decimal n)" by (simp add: length_decimal_ge10)
      ultimately show ?thesis using "1.prems" by simp
    next
      case m: False
      from False m "1.prems"
      have eq: "decimal (n div 10) = decimal (m div 10)" "digitChar (n mod 10) = digitChar (m mod 10)"
        by (simp_all add: decimal.simps[of n] decimal.simps[of m])
      from "1.IH"[OF False eq(1)] have "n div 10 = m div 10" .
      moreover from eq(2) have "n mod 10 = m mod 10" by (simp add: digitChar_inj)
      ultimately show ?thesis by (metis div_mult_mod_eq)
    qed
  qed
qed




lemma numbered_inj: "inj (\<lambda>c. pre @ hyphen # decimal c @ post)"
  by (auto simp: inj_def dest: decimal_inj)

lemma pending_finite:
  assumes "inj f"
  shows "finite {c. k \<le> c \<and> f c \<in> set used}"
proof -
  have "finite (f -` set used)" using assms by (simp add: finite_vimageI)
  then show ?thesis by (rule rev_finite_subset) auto
qed

lemma pending_step:
  assumes "inj (f :: nat \<Rightarrow> 'a)"
  shows "card {c. Suc k \<le> c \<and> f c \<in> set used} + (if f k \<in> set used then 1 else 0)
         = card {c. k \<le> c \<and> f c \<in> set used}"
proof (cases "f k \<in> set used")
  case True
  then have "{c. k \<le> c \<and> f c \<in> set used} = insert k {c. Suc k \<le> c \<and> f c \<in> set used}"
    by (auto simp: Suc_le_eq le_less)
  then show ?thesis using True pending_finite[OF assms, of "Suc k" used] by simp
next
  case False
  then have "{c. k \<le> c \<and> f c \<in> set used} = {c. Suc k \<le> c \<and> f c \<in> set used}"
    by (auto simp: Suc_le_eq le_less)
  then show ?thesis using False by simp
qed

subsection \<open>handleConfirmExport\<close>

text \<open>
  \<open>usedNames\<close> is a \<open>Set\<close>: it keeps its elements in insertion order, and adding an
  element it has already changes nothing.
\<close>

definition setAdd :: "jsstring \<Rightarrow> jsstring list \<Rightarrow> jsstring list" where
  "setAdd x xs = (if x \<in> set xs then xs else xs @ [x])"

text \<open>
  \<open>zipContents\<close> is a plain object used as a table, and \<open>obj[k] = v\<close> adds or replaces
  the entry of \<open>k\<close>, for every key but one: \<open>__proto__\<close> reaches the accessor that
  \<open>Object.prototype\<close> has under this name, which makes the byte array the prototype of
  the object and adds no entry. The table of the model holds the own entries of the object
  and nothing of its prototype. It is therefore the table that \<open>zipSync\<close> reads only as
  long as no store has gone to \<open>__proto__\<close>: after such a store the object inherits the
  indices of the byte array, which \<open>zipSync\<close> enumerates too and which decide whether a
  later store under a numeric name adds an entry. What is proved below about the contents
  of the whole table is proved for exports in which no name is \<open>__proto__\<close>.
\<close>

definition objectSet :: "(jsstring \<rightharpoonup> 'v) \<Rightarrow> jsstring \<Rightarrow> 'v \<Rightarrow> (jsstring \<rightharpoonup> 'v)" where
  "objectSet obj k v = (if k = js ''__proto__'' then obj else obj(k \<mapsto> v))"

text \<open>
  The body of the collision loop for a file that is not a PDF: the name tried with the
  current counter, computed from the original name of the file.
\<close>

definition otherNumbered :: "jsstring \<Rightarrow> nat \<Rightarrow> jsstring" where
  "otherNumbered fileName counter =
     (let dotIndex = lastIndexOf fileName dot in
      if dotIndex > 0 then
        (let base = substring fileName 0 dotIndex; ext = substringFrom fileName dotIndex
         in base @ hyphen # decimal counter @ ext)
      else fileName @ hyphen # decimal counter)"

lemma otherNumbered_inj: "inj (otherNumbered n)"
  using numbered_inj[of "substring n 0 (lastIndexOf n dot)" "substringFrom n (lastIndexOf n dot)"]
    numbered_inj[of n "[]"]
  by (auto simp: otherNumbered_def Let_def inj_def)

text \<open>
  \<open>while (usedNames.has(filename)) { filename = ...; counter++ }\<close>, returning the
  \<open>filename\<close> it ends with. The counter is a number that stays below the size of
  \<open>usedNames\<close> plus 2, so a natural number stands for it.
\<close>

function otherLoop :: "jsstring list \<Rightarrow> jsstring \<Rightarrow> jsstring \<Rightarrow> nat \<Rightarrow> jsstring" where
  "otherLoop usedNames fileName filename counter =
     (if filename \<in> set usedNames then
        otherLoop usedNames fileName (otherNumbered fileName counter) (counter + 1)
      else filename)"
  by pat_completeness auto
termination
proof (relation "measure (\<lambda>(used, n, filename, counter).
    card {c. counter \<le> c \<and> otherNumbered n c \<in> set used}
      + (if filename \<in> set used then 1 else 0))")
  show "wf (measure (\<lambda>(used, n, filename, counter).
    card {c. counter \<le> c \<and> otherNumbered n c \<in> set used}
      + (if filename \<in> set used then 1 else 0)))"
    by simp
next
  fix usedNames :: "jsstring list" and fileName filename :: jsstring and counter :: nat
  assume "filename \<in> set usedNames"
  then show "((usedNames, fileName, otherNumbered fileName counter, counter + 1),
         usedNames, fileName, filename, counter)
        \<in> measure (\<lambda>(used, n, filename, counter).
          card {c. counter \<le> c \<and> otherNumbered n c \<in> set used}
            + (if filename \<in> set used then 1 else 0))"
    using pending_step[of "otherNumbered fileName" counter usedNames, OF otherNumbered_inj]
    by simp
qed

declare otherLoop.simps [simp del]

text \<open>The same for a PDF: the numbered name, and the loop.\<close>

definition pdfNumbered ::
  "jsstring \<Rightarrow> jsstring \<Rightarrow> jsstring \<Rightarrow> jsstring \<Rightarrow> nat \<Rightarrow> jsstring" where
  "pdfNumbered sanitizedPrefix sanitizedDistributor sanitizedInvoice sanitizedDate counter =
     sanitizedPrefix @ hyphen # sanitizedDistributor @ hyphen # sanitizedInvoice
       @ hyphen # sanitizedDate @ hyphen # decimal counter @ js ''.pdf''"


lemma pdfNumbered_inj: "inj (pdfNumbered sp sd si sdate)"
  using numbered_inj[of "sp @ hyphen # sd @ hyphen # si @ hyphen # sdate" "js ''.pdf''"]
  by (simp add: pdfNumbered_def inj_def)

function pdfLoop ::
  "jsstring list \<Rightarrow> jsstring \<Rightarrow> jsstring \<Rightarrow> jsstring \<Rightarrow> jsstring \<Rightarrow> jsstring \<Rightarrow> nat
    \<Rightarrow> jsstring" where
  "pdfLoop usedNames sanitizedPrefix sanitizedDistributor sanitizedInvoice sanitizedDate
      filename counter =
     (if filename \<in> set usedNames then
        pdfLoop usedNames sanitizedPrefix sanitizedDistributor sanitizedInvoice sanitizedDate
          (pdfNumbered sanitizedPrefix sanitizedDistributor sanitizedInvoice sanitizedDate counter)
          (counter + 1)
      else filename)"
  by pat_completeness auto
termination
proof (relation "measure (\<lambda>(used, sp, sd, si, sdate, filename, counter).
    card {c. counter \<le> c \<and> pdfNumbered sp sd si sdate c \<in> set used}
      + (if filename \<in> set used then 1 else 0))")
  show "wf (measure (\<lambda>(used, sp, sd, si, sdate, filename, counter).
    card {c. counter \<le> c \<and> pdfNumbered sp sd si sdate c \<in> set used}
      + (if filename \<in> set used then 1 else 0)))"
    by simp
next
  fix usedNames :: "jsstring list" and sp sd si sdate filename :: jsstring and counter :: nat
  assume "filename \<in> set usedNames"
  then show "((usedNames, sp, sd, si, sdate, pdfNumbered sp sd si sdate counter, counter + 1),
         usedNames, sp, sd, si, sdate, filename, counter)
        \<in> measure (\<lambda>(used, sp, sd, si, sdate, filename, counter).
          card {c. counter \<le> c \<and> pdfNumbered sp sd si sdate c \<in> set used}
            + (if filename \<in> set used then 1 else 0))"
    using pending_step[of "pdfNumbered sp sd si sdate" counter usedNames, OF pdfNumbered_inj]
    by simp
qed

declare pdfLoop.simps [simp del]

text \<open>
  The two locals of the \<open>try\<close> block, and the bodies of its two \<open>for\<close> loops. The bytes
  of a file are what \<open>arrayBuffer()\<close> resolves to. \<open>otherFilename\<close> and \<open>pdfFilename\<close>
  are the value of \<open>filename\<close> when it is added to \<open>usedNames\<close>.
\<close>

record ZipBuild =
  zipContents :: "jsstring \<rightharpoonup> byte list"
  usedNames :: "jsstring list"

definition otherFilename :: "jsstring list \<Rightarrow> FileData \<Rightarrow> jsstring" where
  "otherFilename used fileData = otherLoop used (name (file_obj fileData)) (name (file_obj fileData)) 2"

definition addOther :: "ZipBuild \<Rightarrow> FileData \<Rightarrow> ZipBuild" where
  "addOther b fileData =
     (let buffer = arrayBuffer (file_obj fileData);
          filename = otherFilename (usedNames b) fileData
      in b\<lparr>usedNames := setAdd filename (usedNames b),
           zipContents := objectSet (zipContents b) filename buffer\<rparr>)"

definition pdfFilename :: "jsstring list \<Rightarrow> jsstring \<Rightarrow> PdfMetadata \<Rightarrow> jsstring" where
  "pdfFilename used sanitizedPrefix meta =
     (let sanitizedDistributor = sanitizeSegment (distributor meta);
          sanitizedInvoice = sanitizeSegment (invoiceNumber meta);
          sanitizedDate = trim (date meta);
          filename = sanitizedPrefix @ hyphen # sanitizedDistributor @ hyphen # sanitizedInvoice
            @ hyphen # sanitizedDate @ js ''.pdf''
      in pdfLoop used sanitizedPrefix sanitizedDistributor sanitizedInvoice sanitizedDate
           filename 2)"

text \<open>
  Reading \<open>meta.distributor\<close> when the table has no record under the key throws a
  \<open>TypeError\<close>, which ends the loop and is caught by the \<open>catch\<close> clause of the handler.
  It is the one exception that the two loops raise by themselves. The \<open>catch\<close> clause also
  receives what the environment raises: an \<open>arrayBuffer()\<close> that rejects, or an error of
  \<open>zipSync\<close> or of the calls that start the download. A \<open>File\<close> of the model is a file
  that can be read, and the model of the handler ends with the table it hands to
  \<open>zipSync\<close>, so these are outside of it: a result of the model describes the run of the
  handler in which the reads, \<open>zipSync\<close> and the download succeed.
\<close>

datatype exn = TypeError

definition addPdf ::
  "(jsstring \<rightharpoonup> PdfMetadata) \<Rightarrow> jsstring \<Rightarrow> ZipBuild \<Rightarrow> FileData \<Rightarrow> exn + ZipBuild" where
  "addPdf md sanitizedPrefix b fileData =
     (case md (key fileData) of
        None \<Rightarrow> Inl TypeError
      | Some meta \<Rightarrow>
          (let filename = pdfFilename (usedNames b) sanitizedPrefix meta;
               buffer = arrayBuffer (file_obj fileData)
           in Inr (b\<lparr>usedNames := setAdd filename (usedNames b),
                     zipContents := objectSet (zipContents b) filename buffer\<rparr>)))"

fun addPdfs ::
  "(jsstring \<rightharpoonup> PdfMetadata) \<Rightarrow> jsstring \<Rightarrow> ZipBuild \<Rightarrow> FileData list \<Rightarrow> exn + ZipBuild" where
  "addPdfs md sanitizedPrefix b [] = Inr b"
| "addPdfs md sanitizedPrefix b (fileData # rest) =
     (case addPdf md sanitizedPrefix b fileData of
        Inl e \<Rightarrow> Inl e
      | Inr b' \<Rightarrow> addPdfs md sanitizedPrefix b' rest)"

definition buildZip :: "AppState \<Rightarrow> jsstring \<Rightarrow> exn + ZipBuild" where
  "buildZip st sanitizedPrefix =
     addPdfs (metadata st) sanitizedPrefix
       (foldl addOther \<lparr>zipContents = Map.empty, usedNames = []\<rparr> (otherFiles st))
       (pdfFiles st)"

text \<open>
  The handler returns the new state and, when it gets that far, the archive it offers for
  download: its file name and the table of entries handed to \<open>zipSync\<close>. The message
  shown after \<open>Export failed:\<close> is \<open>err.message\<close>, a text that each engine words in its
  own way; \<open>exnMessage\<close> holds the wording of V8, and nothing below is stated about it.
\<close>

record Download =
  download :: jsstring
  entries :: "jsstring \<rightharpoonup> byte list"

definition exnMessage :: "exn \<Rightarrow> jsstring" where
  "exnMessage e = js ''Cannot read properties of undefined (reading 'distributor')''"

definition handleConfirmExport :: "AppState \<Rightarrow> AppState \<times> Download option" where
  "handleConfirmExport st =
     (let sanitizedPrefix = sanitizeSegment (prefixValue st) in
      if sanitizedPrefix = [] then
        (st\<lparr>error := js ''Prefix is invalid (empty after sanitization)''\<rparr>, None)
      else
        (case buildZip st sanitizedPrefix of
           Inl e \<Rightarrow> (st\<lparr>error := js ''Export failed: '' @ exnMessage e\<rparr>, None)
         | Inr b \<Rightarrow>
             (st\<lparr>error := [], isAskingPrefix := False, prefixValue := []\<rparr>,
              Some \<lparr>download = sanitizedPrefix @ js ''-export.zip'', entries = zipContents b\<rparr>)))"

section \<open>The specification\<close>

subsection \<open>The rules of the sanitizer\<close>

text \<open>
  The five rules as the specification words them. Collapsing a run: a character of the
  class that is followed by another one of the class disappears, and the last one of a run
  becomes the hyphen.
\<close>

fun collapse_runs :: "(jschar \<Rightarrow> bool) \<Rightarrow> jsstring \<Rightarrow> jsstring" where
  "collapse_runs P [] = []"
| "collapse_runs P [c] = (if P c then [hyphen] else [c])"
| "collapse_runs P (c # d # s) =
     (if P c then (if P d then collapse_runs P (d # s) else hyphen # collapse_runs P (d # s))
      else c # collapse_runs P (d # s))"

definition replace_each :: "(jschar \<Rightarrow> bool) \<Rightarrow> jsstring \<Rightarrow> jsstring" where
  "replace_each P s = map (\<lambda>c. if P c then hyphen else c) s"

definition strip_hyphens :: "jsstring \<Rightarrow> jsstring" where
  "strip_hyphens s = rev (dropWhile isHyphen (rev (dropWhile isHyphen s)))"

definition sanitize_spec :: "jsstring \<Rightarrow> jsstring" where
  "sanitize_spec raw =
     strip_hyphens (collapse_runs isHyphen (replace_each isForbidden
       (collapse_runs isWhiteSpace (trim raw))))"

subsection \<open>The rules of the status resolver\<close>

text \<open>
  The date pattern of the specification: four digits, a hyphen, two digits, a hyphen, two
  digits, and nothing else. The status is that of the first rule that fails, in the order
  of the list; \<open>ready\<close> when none fails.
\<close>

definition date_shaped :: "jsstring \<Rightarrow> bool" where
  "date_shaped d =
     (length d = 10 \<and> list_all isDigit (take 4 d) \<and> d ! 4 = hyphen
      \<and> list_all isDigit (take 2 (drop 5 d)) \<and> d ! 7 = hyphen
      \<and> list_all isDigit (drop 8 d))"

fun first_failing :: "(bool \<times> 'a) list \<Rightarrow> 'a \<Rightarrow> 'a" where
  "first_failing [] otherwise = otherwise"
| "first_failing ((fails, result) # rules) otherwise =
     (if fails then result else first_failing rules otherwise)"

definition status_rules :: "PdfMetadata \<Rightarrow> bool \<Rightarrow> jsstring \<Rightarrow> (bool \<times> StatusResult) list" where
  "status_rules record includePrefix prefixText =
     [(distributor record = [] \<or> invoiceNumber record = [] \<or> date record = [],
         \<lparr>status = Missing, message = Some (js ''Missing fields'')\<rparr>),
      (\<not> date_shaped (date record),
         \<lparr>status = Invalid, message = Some (js ''Invalid date format (YYYY-MM-DD)'')\<rparr>),
      (sanitizeSegment (distributor record) = [],
         \<lparr>status = Invalid,
          message = Some (js ''Invalid distributor (empty after sanitization)'')\<rparr>),
      (sanitizeSegment (invoiceNumber record) = [],
         \<lparr>status = Invalid,
          message = Some (js ''Invalid invoice number (empty after sanitization)'')\<rparr>),
      (includePrefix \<and> prefixText \<noteq> [] \<and> sanitizeSegment prefixText = [],
         \<lparr>status = Invalid, message = Some (js ''Invalid prefix'')\<rparr>)]"

definition resolveStatus :: "PdfMetadata option \<Rightarrow> bool \<Rightarrow> jsstring \<Rightarrow> StatusResult" where
  "resolveStatus record includePrefix prefixText =
     (case record of
        None \<Rightarrow> \<lparr>status = Missing, message = Some (js ''No metadata'')\<rparr>
      | Some r \<Rightarrow>
          first_failing (status_rules r includePrefix prefixText) \<lparr>status = Ready, message = None\<rparr>)"

subsection \<open>The filename builder\<close>

text \<open>
  The collision policy: the candidate when it is free, else the first of the names
  numbered 2, 3, ... that is free. The builder assigns the names in the processing
  order, passthrough items first, each one against the names assigned before it.
\<close>

definition first_free :: "jsstring list \<Rightarrow> jsstring \<Rightarrow> (nat \<Rightarrow> jsstring) \<Rightarrow> jsstring" where
  "first_free taken candidate numbered =
     (if candidate \<notin> set taken then candidate
      else numbered (LEAST c. 2 \<le> c \<and> numbered c \<notin> set taken))"






section \<open>Example states\<close>

text \<open>
  Two text files of the same name and two PDF files whose metadata sanitize to the same
  name, with the prefix dialog open.
\<close>

definition mkFile :: "string \<Rightarrow> string \<Rightarrow> int \<Rightarrow> byte list \<Rightarrow> File" where
  "mkFile n t modified bytes =
     \<lparr>name = js n, size_file = length bytes, lastModified = modified, type_file = js t,
      arrayBuffer = bytes\<rparr>"

definition notes1 :: File where "notes1 = mkFile ''a.txt'' ''text/plain'' 1000 [1, 2, 3]"

definition notes2 :: File where "notes2 = mkFile ''a.txt'' ''text/plain'' 2000 [4, 5]"

definition invoice1 :: File where "invoice1 = mkFile ''scan1.pdf'' ''application/pdf'' 3000 [6]"




definition meta :: "string \<Rightarrow> string \<Rightarrow> string \<Rightarrow> PdfMetadata" where
  "meta d i t = \<lparr>distributor = js d, invoiceNumber = js i, date = js t\<rparr>"


text \<open>A state with one metadata record, under the key \<open>k\<close>, and a prefix.\<close>

definition statusState :: "PdfMetadata option \<Rightarrow> string \<Rightarrow> AppState" where
  "statusState record prefixText =
     \<lparr>files = [], selectedPdfKey = None, metadata = (\<lambda>k. if k = js ''k'' then record else None),
      pageNumber = 1, isAskingPrefix = False, prefixValue = js prefixText, error = []\<rparr>"

text \<open>
  The prefix dialog is open and the distributor field of the only PDF has been emptied
  since the export button was clicked.
\<close>

definition lateEditState :: AppState where
  "lateEditState =
     \<lparr>files = [toFileData invoice1], selectedPdfKey = Some (getFileKey invoice1),
      metadata = [getFileKey invoice1 \<mapsto> meta [] ''7'' ''2024-01-31''],
      pageNumber = 1, isAskingPrefix = True, prefixValue = js ''p'', error = []\<rparr>"


text \<open>A state that still shows the message of a rejected upload, and one with 99 files.\<close>

definition staleErrorState :: AppState where
  "staleErrorState =
     \<lparr>files = [toFileData notes1], selectedPdfKey = None, metadata = Map.empty,
      pageNumber = 1, isAskingPrefix = False, prefixValue = [],
      error = js ''Cannot add 120 files. Limit is 100 files total. Currently: 1''\<rparr>"

definition almostFullState :: AppState where
  "almostFullState = staleErrorState\<lparr>files := replicate 99 (toFileData notes1)\<rparr>"

section \<open>The sanitizer\<close>

fun adjacentHyphens :: "jsstring \<Rightarrow> bool" where
  "adjacentHyphens (a # b # s) = ((isHyphen a \<and> isHyphen b) \<or> adjacentHyphens (b # s))"
| "adjacentHyphens _ = False"

subsection \<open>The code applies the rules\<close>

lemma collapse_runs_Cons_true:
  "P c \<Longrightarrow> collapse_runs P (c # s) = hyphen # collapse_runs P (dropWhile P s)"
  by (induction s arbitrary: c) auto

lemma collapse_runs_Cons_false:
  "\<not> P c \<Longrightarrow> collapse_runs P (c # s) = c # collapse_runs P s"
  by (cases s) auto

lemma replaceAllPlus_collapse: "replaceAllPlus P [hyphen] s = collapse_runs P s"
  by (induction P "[hyphen]" s rule: replaceAllPlus.induct)
     (auto simp: collapse_runs_Cons_true collapse_runs_Cons_false)

lemma replaceAllClass_each: "replaceAllClass P [hyphen] s = replace_each P s"
  by (induction s) (auto simp: replaceAllClass_def replace_each_def)

lemma replaceTrailingHyphens_rev:
  "replaceTrailingHyphens s = rev (dropWhile isHyphen (rev s))"
proof (induction s)
  case Nil
  show ?case by simp
next
  case (Cons c s)
  show ?case
  proof (cases "list_all isHyphen s")
    case True
    then have "dropWhile isHyphen (rev s) = []"
      by (simp add: list_all_iff)
    then have "dropWhile isHyphen (rev s @ [c]) = dropWhile isHyphen [c]"
      by (simp add: dropWhile_append list_all_iff)
    with True Cons show ?thesis by (cases "isHyphen c") (auto simp: list_all_iff)
  next
    case False
    then obtain x where "x \<in> set (rev s)" "\<not> isHyphen x"
      by (auto simp: list_all_iff)
    then have "dropWhile isHyphen (rev s @ [c]) = dropWhile isHyphen (rev s) @ [c]"
      by (simp add: dropWhile_append1)
    with False Cons show ?thesis by simp
  qed
qed

lemma replaceAllEdgeHyphens_strip: "replaceAllEdgeHyphens s = strip_hyphens s"
  by (simp add: replaceAllEdgeHyphens_def strip_hyphens_def replaceTrailingHyphens_rev)

lemma sanitizeSegment_spec: "sanitizeSegment s = sanitize_spec s"
  by (simp add: sanitizeSegment_def sanitize_spec_def replaceAllPlus_collapse
      replaceAllClass_each replaceAllEdgeHyphens_strip)

lemmas js_eval = js_def hyphen_def dot_def isHyphen_def isWhiteSpace_def isForbidden_def isDigit_def

lemmas sanitize_eval = sanitizeSegment_spec sanitize_spec_def strip_hyphens_def replace_each_def trim_def

text \<open>
  C4: \<open>sanitizeSegment\<close> trims surrounding whitespace, collapses each run of whitespace
  to one hyphen, replaces each of the characters \<open>/ \ : * ? " < > |\<close> by a hyphen,
  collapses runs of hyphens to one and strips leading and trailing hyphens, in this
  order. It maps \<open>"  a//b::c  "\<close> to \<open>"a-b-c"\<close>, and both \<open>""\<close> and \<open>"   "\<close> to \<open>""\<close>,
  which makes these two segments invalid: a segment is valid exactly when its sanitized
  form is not empty.
\<close>

theorem sanitize_rules_in_order:
  "sanitizeSegment x = sanitize_spec x
   \<and> sanitizeSegment (js ''  a//b::c  '') = js ''a-b-c''
   \<and> sanitizeSegment [] = []
   \<and> sanitizeSegment (js ''   '') = []
   \<and> \<not> validateSegment []
   \<and> \<not> validateSegment (js ''   '')
   \<and> validateSegment x = (sanitizeSegment x \<noteq> [])"
proof -
  have ex: "sanitize_spec (js ''  a//b::c  '') = js ''a-b-c''"
    "sanitize_spec [] = []" "sanitize_spec (js ''   '') = []"
    by (simp_all add: sanitize_spec_def strip_hyphens_def replace_each_def trim_def js_def
        isWhiteSpace_def isForbidden_def isHyphen_def hyphen_def)
  then show ?thesis
    by (simp add: sanitizeSegment_spec validateSegment_def)
qed

theorem sanitize_rules_in_order_witness:
  "sanitizeSegment (js ''Acme: Corp / 2024*'') = js ''Acme-Corp-2024''
   \<and> validateSegment (js ''Acme: Corp / 2024*'')"
  using sanitize_rules_in_order [of "js ''Acme: Corp / 2024*''"]
  by (simp add: sanitize_spec_def strip_hyphens_def replace_each_def trim_def js_def
      isWhiteSpace_def isForbidden_def isHyphen_def hyphen_def)

subsection \<open>Idempotence\<close>

lemma notWs_hyphen: "\<not> isWhiteSpace hyphen"
  by (simp add: isWhiteSpace_def hyphen_def)

lemma notForbidden_hyphen: "\<not> isForbidden hyphen"
  by (simp add: isForbidden_def hyphen_def)

lemma collapse_runs_removes: "\<not> P hyphen \<Longrightarrow> c \<in> set (collapse_runs P s) \<Longrightarrow> \<not> P c"
  by (induction P s rule: collapse_runs.induct) (auto split: if_splits)

lemma set_collapse_runs: "c \<in> set (collapse_runs P s) \<Longrightarrow> c = hyphen \<or> c \<in> set s"
  by (induction P s rule: collapse_runs.induct) (auto split: if_splits)

lemma collapse_runs_id: "\<forall>c\<in>set s. \<not> P c \<Longrightarrow> collapse_runs P s = s"
  by (induction P s rule: collapse_runs.induct) auto

lemma replace_each_id: "\<forall>c\<in>set s. \<not> P c \<Longrightarrow> replace_each P s = s"
  by (induction s) (auto simp: replace_each_def)

lemma set_replace_each: "c \<in> set (replace_each P s) \<Longrightarrow> c = hyphen \<or> (c \<in> set s \<and> \<not> P c)"
  by (auto simp: replace_each_def split: if_splits)

lemma hd_collapse_hyphen:
  "collapse_runs isHyphen s \<noteq> [] \<Longrightarrow> isHyphen (hd (collapse_runs isHyphen s)) = isHyphen (hd s)"
  by (induction "isHyphen" s rule: collapse_runs.induct) (auto simp: isHyphen_def)

lemma collapse_hyphen_noadj: "\<not> adjacentHyphens (collapse_runs isHyphen s)"
proof (induction "isHyphen" s rule: collapse_runs.induct)
  case (3 c d s)
  show ?case
  proof (cases "collapse_runs isHyphen (d # s)")
    case Nil
    then show ?thesis by simp
  next
    case (Cons e t)
    with hd_collapse_hyphen[of "d # s"] have "isHyphen e = isHyphen d" by simp
    with 3 Cons show ?thesis by (auto simp: isHyphen_def)
  qed
qed auto

lemma collapse_hyphen_id: "\<not> adjacentHyphens s \<Longrightarrow> collapse_runs isHyphen s = s"
  by (induction "isHyphen" s rule: collapse_runs.induct) (auto simp: isHyphen_def)

lemma adjacent_iff_sublist: "adjacentHyphens s \<longleftrightarrow> sublist [hyphen, hyphen] s"
  by (induction s rule: adjacentHyphens.induct) (auto simp: sublist_Cons_right isHyphen_def)

lemma sublist_strip_hyphens: "sublist (strip_hyphens s) s"
proof -
  have "sublist (rev (dropWhile isHyphen (rev (dropWhile isHyphen s)))) (dropWhile isHyphen s)"
    by (simp add: sublist_rev_left)
  then show ?thesis
    unfolding strip_hyphens_def using sublist_dropWhile sublist_order.order_trans by blast
qed

lemma strip_hyphens_no_trailing: "\<not> suffix [hyphen] (strip_hyphens s)"
proof
  assume "suffix [hyphen] (strip_hyphens s)"
  then have "prefix [hyphen] (dropWhile isHyphen (rev (dropWhile isHyphen s)))"
    by (simp add: strip_hyphens_def suffix_to_prefix)
  then obtain t where t: "dropWhile isHyphen (rev (dropWhile isHyphen s)) = hyphen # t"
    by (auto simp: prefix_def)
  from hd_dropWhile[of isHyphen "rev (dropWhile isHyphen s)"] t show False
    by (simp add: isHyphen_def)
qed

lemma strip_hyphens_no_leading: "\<not> prefix [hyphen] (strip_hyphens s)"
proof
  assume a: "prefix [hyphen] (strip_hyphens s)"
  let ?u = "dropWhile isHyphen s"
  have "prefix (rev (dropWhile isHyphen (rev ?u))) ?u"
    by (metis suffix_dropWhile suffix_to_prefix rev_rev_ident)
  with a have "prefix [hyphen] ?u"
    unfolding strip_hyphens_def using prefix_order.order_trans by blast
  then obtain t where t: "?u = hyphen # t" by (auto simp: prefix_def)
  from hd_dropWhile[of isHyphen s] t show False by (simp add: isHyphen_def)
qed

lemma strip_hyphens_id:
  assumes "\<not> prefix [hyphen] s" and "\<not> suffix [hyphen] s"
  shows "strip_hyphens s = s"
proof -
  from assms(1) have 1: "dropWhile isHyphen s = s"
    by (cases s) (auto simp: isHyphen_def)
  from assms(2) have "\<not> prefix [hyphen] (rev s)"
    by (simp add: suffix_to_prefix)
  then have "dropWhile isHyphen (rev s) = rev s"
    by (cases "rev s") (auto simp: isHyphen_def)
  with 1 show ?thesis by (simp add: strip_hyphens_def)
qed

lemma trim_id: "\<forall>c\<in>set s. \<not> isWhiteSpace c \<Longrightarrow> trim s = s"
proof -
  assume a: "\<forall>c\<in>set s. \<not> isWhiteSpace c"
  then have 1: "dropWhile isWhiteSpace s = s" by (cases s) auto
  from a have "dropWhile isWhiteSpace (rev s) = rev s" by (cases "rev s") (auto simp: dropWhile_eq_self_iff)
  with 1 show ?thesis by (simp add: trim_def)
qed

lemma sanitize_spec_clean:
  assumes "c \<in> set (sanitize_spec x)"
  shows "\<not> isWhiteSpace c \<and> \<not> isForbidden c"
proof -
  let ?b = "collapse_runs isWhiteSpace (trim x)"
  let ?c = "replace_each isForbidden ?b"
  let ?d = "collapse_runs isHyphen ?c"
  have "set (strip_hyphens ?d) \<subseteq> set ?d"
    using sublist_strip_hyphens[of ?d] by (meson set_mono_sublist)
  with assms have "c \<in> set ?d" by (auto simp: sanitize_spec_def)
  then have "c = hyphen \<or> c \<in> set ?c" by (rule set_collapse_runs)
  then have "c = hyphen \<or> (c \<in> set ?b \<and> \<not> isForbidden c)"
    using set_replace_each by blast
  then show ?thesis
    using collapse_runs_removes[of isWhiteSpace c "trim x"] notWs_hyphen notForbidden_hyphen by blast
qed

lemma sanitize_spec_no_adjacent: "\<not> sublist [hyphen, hyphen] (sanitize_spec x)"
proof
  let ?d = "collapse_runs isHyphen (replace_each isForbidden (collapse_runs isWhiteSpace (trim x)))"
  assume "sublist [hyphen, hyphen] (sanitize_spec x)"
  then have "sublist [hyphen, hyphen] ?d"
    unfolding sanitize_spec_def using sublist_strip_hyphens sublist_order.order_trans by blast
  then show False
    using collapse_hyphen_noadj[of "replace_each isForbidden (collapse_runs isWhiteSpace (trim x))"]
    by (simp add: adjacent_iff_sublist)
qed

lemma sanitize_spec_fixpoint:
  assumes "\<forall>c\<in>set t. \<not> isWhiteSpace c \<and> \<not> isForbidden c"
    and "\<not> sublist [hyphen, hyphen] t"
    and "\<not> prefix [hyphen] t" and "\<not> suffix [hyphen] t"
  shows "sanitize_spec t = t"
  using assms
  by (simp add: sanitize_spec_def trim_id collapse_runs_id replace_each_id collapse_hyphen_id
      adjacent_iff_sublist strip_hyphens_id)

lemma sanitize_spec_idem: "sanitize_spec (sanitize_spec x) = sanitize_spec x"
proof (rule sanitize_spec_fixpoint)
  show "\<forall>c\<in>set (sanitize_spec x). \<not> isWhiteSpace c \<and> \<not> isForbidden c"
    using sanitize_spec_clean by blast
  show "\<not> sublist [hyphen, hyphen] (sanitize_spec x)" by (rule sanitize_spec_no_adjacent)
  show "\<not> prefix [hyphen] (sanitize_spec x)"
    by (simp add: sanitize_spec_def strip_hyphens_no_leading)
  show "\<not> suffix [hyphen] (sanitize_spec x)"
    by (simp add: sanitize_spec_def strip_hyphens_no_trailing)
qed

text \<open>
  C5: \<open>sanitizeSegment\<close> is idempotent, and its result never starts with a hyphen, never
  ends with one and never has two hyphens next to each other.
\<close>

theorem sanitize_idempotent:
  "sanitizeSegment (sanitizeSegment x) = sanitizeSegment x
   \<and> \<not> prefix [hyphen] (sanitizeSegment x)
   \<and> \<not> suffix [hyphen] (sanitizeSegment x)
   \<and> \<not> sublist [hyphen, hyphen] (sanitizeSegment x)"
  by (simp add: sanitizeSegment_spec sanitize_spec_idem sanitize_spec_no_adjacent)
     (simp add: sanitize_spec_def strip_hyphens_no_leading strip_hyphens_no_trailing)

theorem sanitize_idempotent_witness:
  "sanitizeSegment (js ''--a  -/- b--'') = js ''a-b''
   \<and> sanitizeSegment (sanitizeSegment (js ''--a  -/- b--'')) = js ''a-b''"
  using sanitize_idempotent [of "js ''--a  -/- b--''"]
  by (simp add: sanitizeSegment_spec sanitize_spec_def strip_hyphens_def replace_each_def
      trim_def js_def isWhiteSpace_def isForbidden_def isHyphen_def hyphen_def)

section \<open>The status resolver\<close>

lemma matchDigits_Some:
  "matchDigits n s = Some r \<longleftrightarrow> n \<le> length s \<and> list_all isDigit (take n s) \<and> r = drop n s"
  by (induction n s rule: matchDigits.induct) auto

lemma matchChar_Some: "matchChar x s = Some r \<longleftrightarrow> s = x # r"
  by (cases s) auto

lemma drop_eq_Cons: "drop n s = x # r \<longleftrightarrow> n < length s \<and> s ! n = x \<and> r = drop (Suc n) s"
  by (metis Cons_nth_drop_Suc drop_eq_Nil leI list.distinct(1) list.inject nth_via_drop)

lemma DATE_REGEX_test_shape: "DATE_REGEX_test d = date_shaped d"
  unfolding DATE_REGEX_test_def date_shaped_def
  by (auto simp: bind_eq_Some_conv matchDigits_Some matchChar_Some drop_eq_Cons)

lemmas status_eval = getPdfStatus_def DATE_REGEX_test_shape date_shaped_def validateSegment_def

text \<open>
  C3: for every metadata table, key, \<open>includePrefix\<close> flag and prefix, \<open>getPdfStatus\<close>
  returns the status and message of the first failing rule in the order of the
  specification: no record; an empty distributor, invoice number or date; a date that is
  not four digits, hyphen, two digits, hyphen, two digits; a distributor that sanitizes to
  the empty string; an invoice number that does; with \<open>includePrefix\<close>, a non-empty prefix
  that does; otherwise \<open>ready\<close>.
\<close>

theorem status_first_failing_rule:
  "getPdfStatus st k includePrefix = resolveStatus (metadata st k) includePrefix (prefixValue st)"
  by (simp add: getPdfStatus_def resolveStatus_def status_rules_def DATE_REGEX_test_shape
      validateSegment_def split: option.split)

theorem status_first_failing_rule_witness:
  "getPdfStatus (statusState None '''') (js ''k'') True
     = \<lparr>status = Missing, message = Some (js ''No metadata'')\<rparr>
   \<and> getPdfStatus (statusState (Some (meta ''///'' ''7'' '''')) '''') (js ''k'') True
     = \<lparr>status = Missing, message = Some (js ''Missing fields'')\<rparr>
   \<and> getPdfStatus (statusState (Some (meta ''///'' ''7'' ''2024-1-31'')) '''') (js ''k'') True
     = \<lparr>status = Invalid, message = Some (js ''Invalid date format (YYYY-MM-DD)'')\<rparr>
   \<and> getPdfStatus (statusState (Some (meta ''///'' ''***'' ''2024-01-31'')) ''-'') (js ''k'') True
     = \<lparr>status = Invalid, message = Some (js ''Invalid distributor (empty after sanitization)'')\<rparr>
   \<and> getPdfStatus (statusState (Some (meta ''Acme'' ''***'' ''2024-01-31'')) ''-'') (js ''k'') True
     = \<lparr>status = Invalid,
        message = Some (js ''Invalid invoice number (empty after sanitization)'')\<rparr>
   \<and> getPdfStatus (statusState (Some (meta ''Acme'' ''7'' ''2024-01-31'')) ''-'') (js ''k'') True
     = \<lparr>status = Invalid, message = Some (js ''Invalid prefix'')\<rparr>
   \<and> getPdfStatus (statusState (Some (meta ''Acme'' ''7'' ''2024-01-31'')) ''-'') (js ''k'') False
     = \<lparr>status = Ready, message = None\<rparr>
   \<and> getPdfStatus (statusState (Some (meta ''Acme'' ''7'' ''2024-01-31'')) '''') (js ''k'') True
     = \<lparr>status = Ready, message = None\<rparr>"
  using status_first_failing_rule [of "statusState (Some (meta ''Acme'' ''7'' ''2024-01-31'')) ''-''"
      "js ''k''" True]
  by (simp add: status_eval statusState_def meta_def sanitize_eval js_eval)

section \<open>Properties of the numbered names\<close>

subsection \<open>The position of the last dot\<close>

lemma lastIndexOf_absent: "c \<notin> set s \<Longrightarrow> lastIndexOf s c = - 1"
  by (induction s) (auto simp: Let_def)

lemma lastIndexOf_append: "c \<notin> set e \<Longrightarrow> lastIndexOf (b @ c # e) c = int (length b)"
  by (induction b) (auto simp: Let_def lastIndexOf_absent)

lemma lastIndexOf_bounds: "- 1 \<le> lastIndexOf s c \<and> lastIndexOf s c < int (length s)"
  by (induction s) (auto simp: Let_def)

lemma lastIndexOf_split:
  "0 \<le> lastIndexOf s c \<Longrightarrow>
   \<exists>b e. s = b @ c # e \<and> c \<notin> set e \<and> lastIndexOf s c = int (length b)"
proof (induction s)
  case Nil
  then show ?case by simp
next
  case (Cons x s)
  show ?case
  proof (cases "0 \<le> lastIndexOf s c")
    case True
    from Cons.IH[OF True] obtain b e where
      "s = b @ c # e" "c \<notin> set e" "lastIndexOf s c = int (length b)" by blast
    then have "x # s = (x # b) @ c # e \<and> c \<notin> set e \<and> lastIndexOf (x # s) c = int (length (x # b))"
      by (simp add: Let_def)
    then show ?thesis by blast
  next
    case False
    with Cons.prems have x: "x = c" "lastIndexOf (x # s) c = 0"
      by (auto simp: Let_def split: if_splits)
    have "c \<notin> set s"
    proof
      assume "c \<in> set s"
      then obtain b e where "s = b @ c # e" "c \<notin> set e"
        by (meson split_list_last)
      with False show False by (simp add: lastIndexOf_append)
    qed
    with x have "x # s = [] @ c # s \<and> c \<notin> set s \<and> lastIndexOf (x # s) c = int (length ([]::jsstring))"
      by simp
    then show ?thesis by blast
  qed
qed

lemma lastIndexOf_le0:
  "lastIndexOf n c \<le> 0 \<longleftrightarrow> c \<notin> set n \<or> (\<exists>e. n = c # e \<and> c \<notin> set e)"
proof
  assume a: "lastIndexOf n c \<le> 0"
  show "c \<notin> set n \<or> (\<exists>e. n = c # e \<and> c \<notin> set e)"
  proof (cases "0 \<le> lastIndexOf n c")
    case True
    from lastIndexOf_split[OF True] a show ?thesis by auto
  next
    case False
    have "c \<notin> set n"
    proof
      assume "c \<in> set n"
      then obtain b e where "n = b @ c # e" "c \<notin> set e"
        by (meson split_list_last)
      with False show False by (simp add: lastIndexOf_append)
    qed
    then show ?thesis by simp
  qed
next
  assume "c \<notin> set n \<or> (\<exists>e. n = c # e \<and> c \<notin> set e)"
  then show "lastIndexOf n c \<le> 0"
    using lastIndexOf_append[of c _ "[]"] by (auto simp: lastIndexOf_absent Let_def)
qed

lemma otherNumbered_ext:
  "base \<noteq> [] \<Longrightarrow> dot \<notin> set e \<Longrightarrow>
   otherNumbered (base @ dot # e) c = base @ hyphen # decimal c @ dot # e"
  by (simp add: otherNumbered_def lastIndexOf_append substring_def substringFrom_def)

lemma otherNumbered_no_ext:
  "lastIndexOf n dot \<le> 0 \<Longrightarrow> otherNumbered n c = n @ hyphen # decimal c"
  by (simp add: otherNumbered_def)

lemma hyphen_not_dot: "hyphen \<noteq> dot"
  by (simp add: hyphen_def dot_def)

lemma otherNumbered_appended_iff:
  "otherNumbered n c = n @ hyphen # decimal c \<longleftrightarrow> lastIndexOf n dot \<le> 0"
proof (cases "lastIndexOf n dot \<le> 0")
  case True
  then show ?thesis by (simp add: otherNumbered_no_ext)
next
  case False
  then have "0 \<le> lastIndexOf n dot" by simp
  from lastIndexOf_split[OF this] obtain b e where
    n: "n = b @ dot # e" "dot \<notin> set e" "lastIndexOf n dot = int (length b)" by blast
  with False have "b \<noteq> []" by auto
  with n have "otherNumbered n c = b @ hyphen # decimal c @ dot # e"
    by (simp add: otherNumbered_ext)
  with n False hyphen_not_dot show ?thesis by auto
qed

lemma length_otherNumbered: "length n < length (otherNumbered n c)"
  using lastIndexOf_bounds[of n dot]
  by (auto simp: otherNumbered_def Let_def substring_def substringFrom_def)


subsection \<open>The collision loops\<close>


lemma otherLoop_result:
  "otherLoop used n filename counter =
     (if filename \<notin> set used then filename
      else otherNumbered n (LEAST c. counter \<le> c \<and> otherNumbered n c \<notin> set used))"
proof (induction used n filename counter rule: otherLoop.induct)
  case (1 used n filename counter)
  show ?case
  proof (cases "filename \<in> set used")
    case False
    then show ?thesis by (subst otherLoop.simps) simp
  next
    case True
    show ?thesis
    proof (cases "otherNumbered n counter \<in> set used")
      case False
      have "(LEAST c. counter \<le> c \<and> otherNumbered n c \<notin> set used) = counter"
        using False by (intro Least_equality) auto
      with True False "1.IH" show ?thesis
        by (subst otherLoop.simps) simp
    next
      case inUsed: True
      have "(\<lambda>c. counter \<le> c \<and> otherNumbered n c \<notin> set used)
          = (\<lambda>c. counter + 1 \<le> c \<and> otherNumbered n c \<notin> set used)"
        using inUsed by (auto simp: fun_eq_iff Suc_le_eq le_less)
      with True inUsed "1.IH" show ?thesis
        by (subst otherLoop.simps) simp
    qed
  qed
qed

lemma pdfLoop_fresh: "pdfLoop used sp sd si sdate filename counter \<notin> set used"
  by (induction used sp sd si sdate filename counter rule: pdfLoop.induct)
     (subst pdfLoop.simps, simp)



lemma pdfFilename_fresh: "pdfFilename used sp m \<notin> set used"
  by (simp add: pdfFilename_def Let_def pdfLoop_fresh)

lemma otherFilename_first_free:
  "otherFilename used f = first_free used (name (file_obj f)) (otherNumbered (name (file_obj f)))"
  by (simp add: otherFilename_def first_free_def otherLoop_result)

lemma otherFilename_second:
  "otherFilename [name (file_obj f)] f = otherNumbered (name (file_obj f)) 2"
proof -
  have "otherNumbered (name (file_obj f)) 2 \<noteq> name (file_obj f)"
    using length_otherNumbered[of "name (file_obj f)" 2] by auto
  then have "(LEAST c. 2 \<le> c \<and> otherNumbered (name (file_obj f)) c \<notin> set [name (file_obj f)]) = 2"
    by (intro Least_equality) auto
  then show ?thesis by (simp add: otherFilename_first_free first_free_def)
qed

lemma js_hyphen: "js ''-'' = [hyphen]"
  by (simp add: js_def hyphen_def)



lemmas numbered_eval = otherNumbered_def pdfNumbered_def Let_def substring_def substringFrom_def
  decimal.simps digitChar_def js_def dot_def hyphen_def

lemma decimal_2: "decimal 2 = js ''2''"
  by (simp add: decimal.simps digitChar_def js_def)

text \<open>
  C10: when the name of a passthrough item has no dot, or its only dot is the first
  character, the counter is appended at the very end of the name (\<open>README-2\<close>,
  \<open>.gitignore-2\<close>); it is inserted before the extension only when the last dot is at a
  position greater than zero.
\<close>

theorem no_extension_appends_counter:
  "(otherNumbered n c = n @ js ''-'' @ decimal c) = (lastIndexOf n dot \<le> 0)
   \<and> (lastIndexOf n dot \<le> 0) = (dot \<notin> set n \<or> (\<exists>e. n = dot # e \<and> dot \<notin> set e))
   \<and> (lastIndexOf (name (file_obj f)) dot \<le> 0 \<longrightarrow>
        otherFilename [name (file_obj f)] f = name (file_obj f) @ js ''-2'')
   \<and> otherNumbered (js ''README'') 2 = js ''README-2''
   \<and> otherNumbered (js ''.gitignore'') 2 = js ''.gitignore-2''
   \<and> otherNumbered (js ''archive.tar.gz'') 2 = js ''archive.tar-2.gz''"
proof (intro conjI impI)
  show "(otherNumbered n c = n @ js ''-'' @ decimal c) = (lastIndexOf n dot \<le> 0)"
    by (simp add: js_hyphen otherNumbered_appended_iff)
next
  show "(lastIndexOf n dot \<le> 0) = (dot \<notin> set n \<or> (\<exists>e. n = dot # e \<and> dot \<notin> set e))"
    by (rule lastIndexOf_le0)
next
  assume "lastIndexOf (name (file_obj f)) dot \<le> 0"
  then show "otherFilename [name (file_obj f)] f = name (file_obj f) @ js ''-2''"
    by (simp add: otherFilename_second otherNumbered_no_ext decimal_2) (simp add: js_def hyphen_def)
next
  show "otherNumbered (js ''README'') 2 = js ''README-2''"
    by (simp add: numbered_eval)
next
  show "otherNumbered (js ''.gitignore'') 2 = js ''.gitignore-2''"
    by (simp add: numbered_eval)
next
  show "otherNumbered (js ''archive.tar.gz'') 2 = js ''archive.tar-2.gz''"
    by (simp add: numbered_eval)
qed

theorem no_extension_appends_counter_witness:
  "otherFilename [js ''README''] (toFileData (mkFile ''README'' [] 0 [])) = js ''README-2''
   \<and> otherNumbered (js ''Makefile'') 3 = js ''Makefile-3''
   \<and> lastIndexOf (js ''Makefile'') dot = - 1
   \<and> lastIndexOf (js ''.gitignore'') dot = 0"
  using no_extension_appends_counter [of "js ''Makefile''" 3 "toFileData (mkFile ''README'' [] 0 [])"]
  by (simp add: toFileData_def mkFile_def) (simp add: numbered_eval)

section \<open>The archive\<close>

subsection \<open>One entry per file\<close>


lemma addPdf_Some:
  "md (key f) = Some m \<Longrightarrow>
   addPdf md sp b f = Inr (b\<lparr>usedNames := usedNames b @ [pdfFilename (usedNames b) sp m],
     zipContents := objectSet (zipContents b) (pdfFilename (usedNames b) sp m)
       (arrayBuffer (file_obj f))\<rparr>)"
  by (simp add: addPdf_def Let_def setAdd_def pdfFilename_fresh)

lemma addPdf_None: "md (key f) = None \<Longrightarrow> addPdf md sp b f = Inl TypeError"
  by (simp add: addPdf_def)







lemma addPdfs_missing:
  "\<exists>f\<in>set fs. md (key f) = None \<Longrightarrow> addPdfs md sp b fs = Inl TypeError"
proof (induction fs arbitrary: b)
  case Nil
  then show ?case by simp
next
  case (Cons f fs)
  show ?case
  proof (cases "md (key f)")
    case None
    then show ?thesis by (simp add: addPdf_None)
  next
    case (Some m)
    with Cons.prems have "\<exists>f\<in>set fs. md (key f) = None" by auto
    from Cons.IH[OF this] Some show ?thesis by (simp add: addPdf_Some)
  qed
qed


lemma buildZip_TypeError:
  "\<exists>f\<in>set (pdfFiles st). metadata st (key f) = None \<Longrightarrow> buildZip st sp = Inl TypeError"
  by (simp add: buildZip_def addPdfs_missing)





subsection \<open>PDF names and passthrough names never collide\<close>










lemma handleFileSelect_isPdf:
  "\<forall>f\<in>set (files st). isPdf f = isPdfFile (file_obj f) \<Longrightarrow>
   \<forall>f\<in>set (files (handleFileSelect st fileList)). isPdf f = isPdfFile (file_obj f)"
  by (auto simp: handleFileSelect_def toFileData_def split: option.splits)


subsection \<open>The example state, evaluated\<close>














subsection \<open>The code follows the filename builder\<close>












subsection \<open>What makes the export fail\<close>

text \<open>
  The handler checks the prefix: a prefix that sanitizes to the empty string is reported
  and no archive is built. A PDF without a metadata record ends the build with the
  \<open>TypeError\<close> of the unchecked \<open>metadata[key]\<close>, reported as a failed export.
\<close>

lemma handleConfirmExport_invalid_prefix:
  "\<not> validateSegment (prefixValue st) \<Longrightarrow>
   handleConfirmExport st
     = (st\<lparr>error := js ''Prefix is invalid (empty after sanitization)''\<rparr>, None)"
  by (simp add: handleConfirmExport_def validateSegment_def)

lemma handleConfirmExport_TypeError:
  "validateSegment (prefixValue st) \<Longrightarrow> \<exists>f\<in>set (pdfFiles st). metadata st (key f) = None \<Longrightarrow>
   handleConfirmExport st = (st\<lparr>error := js ''Export failed: '' @ exnMessage TypeError\<rparr>, None)"
  using buildZip_TypeError[of st "sanitizeSegment (prefixValue st)"]
  by (simp add: handleConfirmExport_def validateSegment_def)

lemma lateEdit_prefix: "sanitizeSegment (prefixValue lateEditState) = js ''p''"
  by (simp add: lateEditState_def sanitize_eval js_eval)

lemma lateEdit_pdfs: "pdfFiles lateEditState = [toFileData invoice1]"
  by (simp add: lateEditState_def pdfFiles_def toFileData_def isPdfFile_def invoice1_def mkFile_def)

lemma lateEdit_others: "otherFiles lateEditState = []"
  by (simp add: lateEditState_def otherFiles_def toFileData_def isPdfFile_def invoice1_def mkFile_def)

lemma lateEdit_status:
  "getPdfStatus lateEditState (key (toFileData invoice1)) True
     = \<lparr>status = Missing, message = Some (js ''Missing fields'')\<rparr>"
  by (simp add: getPdfStatus_def lateEditState_def toFileData_def meta_def js_def)

lemma lateEdit_export:
  "handleConfirmExport lateEditState
     = (lateEditState\<lparr>error := [], isAskingPrefix := False, prefixValue := []\<rparr>,
        Some \<lparr>download = js ''p-export.zip'', entries = [js ''p--7-2024-01-31.pdf'' \<mapsto> [6]]\<rparr>)"
  apply (simp only: handleConfirmExport_def lateEdit_prefix Let_def buildZip_def lateEdit_pdfs
      lateEdit_others)
  apply (simp add: addPdf_def Let_def toFileData_def pdfFilename_def lateEditState_def meta_def
      invoice1_def mkFile_def sanitize_eval js_eval pdfLoop.simps setAdd_def objectSet_def)
  done

text \<open>
  C7: the export is to fail, reporting an error and producing no archive, when the prefix
  is invalid and when the status of some PDF, computed with \<open>includePrefix = true\<close>, is not
  ready. \<open>handleConfirmExport\<close> checks the prefix and never computes a status: the
  statuses are checked by \<open>handleExportClick\<close>, before the prefix dialog opens, and the
  metadata form stays in use while the dialog is open. In \<open>lateEditState\<close> the dialog is
  open, the prefix \<open>p\<close> is valid, and the only PDF has the status \<open>missing\<close>, its
  distributor being empty; the handler does not fail: it clears the error, closes the
  dialog and offers the archive \<open>p-export.zip\<close> with the entry \<open>p--7-2024-01-31.pdf\<close>.
\<close>

theorem export_of_non_ready_pdf:
  "pdfFiles lateEditState = [toFileData invoice1]
   \<and> isAskingPrefix lateEditState
   \<and> validateSegment (prefixValue lateEditState)
   \<and> getPdfStatus lateEditState (key (toFileData invoice1)) True
       = \<lparr>status = Missing, message = Some (js ''Missing fields'')\<rparr>
   \<and> \<not> allPdfsReady lateEditState
   \<and> handleConfirmExport lateEditState
       = (lateEditState\<lparr>error := [], isAskingPrefix := False, prefixValue := []\<rparr>,
          Some \<lparr>download = js ''p-export.zip'', entries = [js ''p--7-2024-01-31.pdf'' \<mapsto> [6]]\<rparr>)"
proof -
  have "isAskingPrefix lateEditState"
    by (simp add: lateEditState_def)
  moreover have "validateSegment (prefixValue lateEditState)"
    by (simp add: validateSegment_def lateEdit_prefix js_def)
  moreover have "\<not> allPdfsReady lateEditState"
    by (simp add: allPdfsReady_def lateEdit_pdfs lateEdit_status)
  ultimately show ?thesis
    using lateEdit_pdfs lateEdit_status lateEdit_export by simp
qed

section \<open>The export gate\<close>



subsection \<open>The prefix is empty while the dialog is closed\<close>

text \<open>
  \<open>allPdfsReady\<close> computes the statuses with \<open>includePrefix = true\<close> and the search of
  \<open>handleExportClick\<close> computes them with \<open>includePrefix = false\<close>. The two differ only
  for a prefix that is not empty and sanitizes to the empty string, and the prefix is empty
  whenever the handler runs: it is the handler of the Export button, rendered while
  \<open>isAskingPrefix\<close> is false, and in every state of the component the prefix is empty
  unless the dialog is open. This holds at the start and is kept by every writer of the
  two hooks; \<open>setPrefixValue\<close> is called by the prefix input, which exists only while
  the dialog is open. The other handlers and effects of the component
  (\<open>handleRemoveFile\<close>, \<open>handleClearAll\<close>, \<open>handlePdfSelect\<close>,
  \<open>handleMetadataChange\<close>, the initialisation of the metadata, the blob URLs, the
  preview) write neither hook.
\<close>

definition dialogInv :: "AppState \<Rightarrow> bool" where
  "dialogInv st = (isAskingPrefix st \<or> prefixValue st = [])"

lemma dialogInv_initialState: "dialogInv initialState"
  by (simp add: dialogInv_def initialState_def)

lemma dialogInv_handleFileSelect: "dialogInv st \<Longrightarrow> dialogInv (handleFileSelect st fileList)"
  by (simp add: dialogInv_def handleFileSelect_def split: option.splits)

lemma dialogInv_handleExportClick: "dialogInv st \<Longrightarrow> dialogInv (fst (handleExportClick st))"
  by (simp add: dialogInv_def handleExportClick_def split: option.splits)

lemma dialogInv_handleCancelExport: "dialogInv (handleCancelExport st)"
  by (simp add: dialogInv_def handleCancelExport_def)

lemma dialogInv_setPrefixValue: "isAskingPrefix st \<Longrightarrow> dialogInv (setPrefixValue st v)"
  by (simp add: dialogInv_def setPrefixValue_def)

lemma dialogInv_handleConfirmExport: "dialogInv st \<Longrightarrow> dialogInv (fst (handleConfirmExport st))"
  by (simp add: dialogInv_def handleConfirmExport_def Let_def split: sum.splits)

lemma dialogInv_frame:
  "dialogInv st \<Longrightarrow> isAskingPrefix st' = isAskingPrefix st \<Longrightarrow> prefixValue st' = prefixValue st \<Longrightarrow>
   dialogInv st'"
  by (simp add: dialogInv_def)







section \<open>The upload limit\<close>

text \<open>
  C9 as stated fails for an empty batch: it does not exceed the limit, and the handler
  returns at once, leaving the error message of an earlier upload in place.
\<close>

theorem upload_empty_batch_counterexample:
  "\<not> length (files staleErrorState) + length ([] :: File list) > MAX_FILES
   \<and> handleFileSelect staleErrorState (Some []) = staleErrorState
   \<and> error (handleFileSelect staleErrorState (Some []))
       = js ''Cannot add 120 files. Limit is 100 files total. Currently: 1''
   \<and> error (handleFileSelect staleErrorState (Some [])) \<noteq> []"
  by (simp add: handleFileSelect_def MAX_FILES_def staleErrorState_def js_def)

text \<open>
  C9, amended: for a batch that is not empty, if adding it would exceed \<open>MAX_FILES\<close> the
  upload is rejected as a whole: the file list is unchanged and the error reports the
  counts; otherwise every file of the batch is appended and the error is cleared. An empty
  or absent selection leaves the state as it is.
\<close>

theorem upload_limit_atomic:
  "(batch \<noteq> [] \<and> length (files st) + length batch > MAX_FILES \<longrightarrow>
      handleFileSelect st (Some batch)
        = st\<lparr>error := js ''Cannot add '' @ decimal (length batch)
                 @ js '' files. Limit is 100 files total. Currently: ''
                 @ decimal (length (files st))\<rparr>
      \<and> files (handleFileSelect st (Some batch)) = files st)
   \<and> (batch \<noteq> [] \<and> length (files st) + length batch \<le> MAX_FILES \<longrightarrow>
      handleFileSelect st (Some batch)
        = st\<lparr>error := [], files := files st @ map toFileData batch\<rparr>)
   \<and> handleFileSelect st (Some []) = st
   \<and> handleFileSelect st None = st
   \<and> MAX_FILES = 100"
proof -
  have "decimal MAX_FILES = js ''100''"
    by (simp add: MAX_FILES_def decimal.simps digitChar_def js_def)
  then have "limitMessage added current
      = js ''Cannot add '' @ decimal added @ js '' files. Limit is 100 files total. Currently: ''
          @ decimal current" for added current
    by (simp add: limitMessage_def js_def)
  then show ?thesis
    by (simp add: handleFileSelect_def MAX_FILES_def)
qed

theorem upload_limit_atomic_witness:
  "handleFileSelect almostFullState (Some [notes2, invoice1])
     = almostFullState\<lparr>error := js ''Cannot add 2 files. Limit is 100 files total. Currently: 99''\<rparr>
   \<and> handleFileSelect almostFullState (Some [notes2])
     = almostFullState\<lparr>error := [], files := files almostFullState @ [toFileData notes2]\<rparr>"
proof -
  have len: "length (files almostFullState) = 99"
    by (simp add: almostFullState_def)
  have d: "decimal 99 = js ''99''" "decimal (Suc (Suc 0)) = js ''2''"
    by (simp_all add: decimal.simps digitChar_def js_def)
  have m: "js ''Cannot add '' @ js ''2'' @ js '' files. Limit is 100 files total. Currently: ''
      @ js ''99'' = js ''Cannot add 2 files. Limit is 100 files total. Currently: 99''"
    by (simp add: js_def)
  from upload_limit_atomic [of "[notes2, invoice1]" almostFullState]
    upload_limit_atomic [of "[notes2]" almostFullState]
  show ?thesis
    by (simp add: len d m)
qed

end
